theory Spec2Isabelle
  imports Main "HOL-Library.Char_ord" "HOL-Library.List_Lexorder" "HOL-Library.Multiset"
begin

section \<open>Appointment queries of the clinical-visit API (src/main.py)\<close>

text \<open>
  The two appointment queries of \<^verbatim>\<open>main.py\<close> are embedded here:
  \<^verbatim>\<open>get_active_appointment\<close> (GET /api/appointments/active) and
  \<^verbatim>\<open>get_current_appointment\<close> (GET /api/patients/{id}/current-appointment).
  Both read the list that \<^verbatim>\<open>load_json_data("appointments.json")\<close> returns and the
  clock; the list and the instant are arguments of the model.
\<close>

subsection \<open>JSON values and dictionaries\<close>

text \<open>
  What \<^verbatim>\<open>json.load\<close> produces: \<^verbatim>\<open>None\<close>, \<^verbatim>\<open>bool\<close>, \<^verbatim>\<open>int\<close>, \<^verbatim>\<open>str\<close>,
  \<^verbatim>\<open>list\<close> and \<^verbatim>\<open>dict\<close>. Numbers with a fraction or an exponent (Python
  \<^verbatim>\<open>float\<close>) are not part of the model. A dictionary is an association list read with
  \<open>map_of\<close>; a string is a list of bytes (UTF-8), whose lexicographic order is the order
  of Python's \<^verbatim>\<open>str\<close> by code point.
\<close>

datatype json =
    JNull
  | JBool bool
  | JInt int
  | JStr string
  | JList "json list"
  | JObj "(string \<times> json) list"

type_synonym dict = "(string \<times> json) list"

definition dict_get :: "dict \<Rightarrow> string \<Rightarrow> json option" where
  \<comment> \<open>\<^verbatim>\<open>d.get(k)\<close>, with \<open>None\<close> for a key that is absent.\<close>
  "dict_get d k = map_of d k"

fun truthy :: "json \<Rightarrow> bool" where
  \<comment> \<open>Python's truth value of a JSON value, as \<^verbatim>\<open>and\<close> and \<^verbatim>\<open>if\<close> take it.\<close>
  "truthy JNull = False"
| "truthy (JBool b) = b"
| "truthy (JInt n) = (n \<noteq> 0)"
| "truthy (JStr s) = (s \<noteq> [])"
| "truthy (JList xs) = (xs \<noteq> [])"
| "truthy (JObj kvs) = (kvs \<noteq> [])"

fun py_eq_int :: "json option \<Rightarrow> int \<Rightarrow> bool" where
  \<comment> \<open>\<^verbatim>\<open>d.get(k) == n\<close> for an \<^verbatim>\<open>int\<close> n; \<^verbatim>\<open>True == 1\<close> and \<^verbatim>\<open>False == 0\<close> hold in Python.\<close>
  "py_eq_int (Some (JInt m)) n = (m = n)"
| "py_eq_int (Some (JBool b)) n = ((if b then 1 else 0) = n)"
| "py_eq_int _ n = False"

subsection \<open>Exceptions, datetimes and timedeltas\<close>

datatype py_error = KeyError | ValueError | TypeError | OverflowError | IndexError

text \<open>
  A \<^verbatim>\<open>datetime\<close> is the number of microseconds since 0001-01-01T00:00:00 on its own
  wall clock, with its \<^verbatim>\<open>tzinfo\<close>: \<open>None\<close> for a naive value, the UTC offset in
  microseconds for an aware one. The type ranges from 0001-01-01T00:00:00 to
  9999-12-31T23:59:59.999999; a \<^verbatim>\<open>timedelta\<close> is a number of microseconds of at most
  999999999 days in magnitude.
\<close>

datatype datetime = DT (ticks: int) (tzinfo: "int option")

definition MAX_TICKS :: int where
  "MAX_TICKS = 3652059 * 86400000000 - 1"

definition timedelta :: "int \<Rightarrow> py_error + int" where
  \<comment> \<open>The constructor's range check on a number of microseconds.\<close>
  "timedelta us =
     (if - 999999999 * 86400000000 \<le> us \<and> us < 1000000000 * 86400000000
      then Inr us else Inl OverflowError)"

fun timedelta_minutes :: "json \<Rightarrow> py_error + int" where
  \<comment> \<open>\<^verbatim>\<open>timedelta(minutes=v)\<close>: an \<^verbatim>\<open>int\<close> (or \<^verbatim>\<open>bool\<close>) is accepted, any other
      value raises TypeError.\<close>
  "timedelta_minutes (JInt n) = timedelta (n * 60000000)"
| "timedelta_minutes (JBool b) = timedelta ((if b then 1 else 0) * 60000000)"
| "timedelta_minutes _ = Inl TypeError"

definition dt_add :: "datetime \<Rightarrow> int \<Rightarrow> py_error + datetime" where
  \<comment> \<open>\<^verbatim>\<open>d + td\<close>: the wall clock moves, the tzinfo stays; out of range is OverflowError.\<close>
  "dt_add d us =
     (let t = ticks d + us
      in if 0 \<le> t \<and> t \<le> MAX_TICKS then Inr (DT t (tzinfo d)) else Inl OverflowError)"

definition dt_le :: "datetime \<Rightarrow> datetime \<Rightarrow> py_error + bool" where
  \<comment> \<open>\<^verbatim>\<open>a <= b\<close>: comparing a naive with an aware datetime raises TypeError.\<close>
  "dt_le a b =
     (case (tzinfo a, tzinfo b) of
        (None, None) \<Rightarrow> Inr (ticks a \<le> ticks b)
      | (Some oa, Some ob) \<Rightarrow> Inr (ticks a - oa \<le> ticks b - ob)
      | _ \<Rightarrow> Inl TypeError)"

definition dt_lt :: "datetime \<Rightarrow> datetime \<Rightarrow> py_error + bool" where
  \<comment> \<open>\<^verbatim>\<open>a < b\<close>.\<close>
  "dt_lt a b =
     (case (tzinfo a, tzinfo b) of
        (None, None) \<Rightarrow> Inr (ticks a < ticks b)
      | (Some oa, Some ob) \<Rightarrow> Inr (ticks a - oa < ticks b - ob)
      | _ \<Rightarrow> Inl TypeError)"

definition est_offset :: int where
  \<comment> \<open>\<^verbatim>\<open>est_offset = timedelta(hours=-5)\<close>, in microseconds.\<close>
  "est_offset = - 5 * 3600000000"

subsection \<open>A reference parser for the extended ISO format\<close>

text \<open>
  \<^verbatim>\<open>datetime.fromisoformat\<close> belongs to the Python library, not to the repository, and the
  strings it accepts differ between Python versions. The queries therefore take the parser
  as an argument \<open>parse\<close> (\<open>None\<close> is ValueError), and every general theorem holds for
  every parser, the library's included. The concrete inputs below are read with
  \<open>fromisoformat_ext\<close>, which covers one format only: \<^verbatim>\<open>YYYY-MM-DD*HH:MM:SS\<close> (any
  single character for \<^verbatim>\<open>*\<close>), the format \<^verbatim>\<open>scripts/generate_data.py\<close> writes with
  \<^verbatim>\<open>isoformat()\<close>. On a string of that format it builds the value as the constructor
  \<^verbatim>\<open>datetime(y, m, d, H, M, S)\<close> does. It rejects every other string, also those that
  the library accepts (a date alone, a time without seconds, a fraction of a second, a UTC
  offset); it is applied below only to strings of that format and to \<^verbatim>\<open>12/12/2025 9am\<close>,
  which the library rejects as well.
\<close>

definition digit :: "char \<Rightarrow> int option" where
  "digit c = (let n = (of_char c :: nat) in if 48 \<le> n \<and> n \<le> 57 then Some (int n - 48) else None)"

fun number :: "char list \<Rightarrow> int option" where
  \<comment> \<open>A field of decimal digits, most significant first.\<close>
  "number [] = None"
| "number [c] = digit c"
| "number cs =
     (case (number (butlast cs), digit (last cs)) of
        (Some hi, Some lo) \<Rightarrow> Some (10 * hi + lo)
      | _ \<Rightarrow> None)"

definition is_leap :: "int \<Rightarrow> bool" where
  "is_leap year = (year mod 4 = 0 \<and> (year mod 100 \<noteq> 0 \<or> year mod 400 = 0))"

definition days_before_year :: "int \<Rightarrow> int" where
  "days_before_year year = (let y = year - 1 in y * 365 + y div 4 - y div 100 + y div 400)"

definition days_in_month :: "int \<Rightarrow> int \<Rightarrow> int" where
  "days_in_month year month =
     (if month = 2 then (if is_leap year then 29 else 28)
      else if month \<in> {4, 6, 9, 11} then 30 else 31)"

definition days_before_month :: "int \<Rightarrow> int \<Rightarrow> int" where
  "days_before_month year month =
     [0, 31, 59, 90, 120, 151, 181, 212, 243, 273, 304, 334] ! nat (month - 1)
       + (if month > 2 \<and> is_leap year then 1 else 0)"

definition mk_datetime :: "int \<Rightarrow> int \<Rightarrow> int \<Rightarrow> int \<Rightarrow> int \<Rightarrow> int \<Rightarrow> datetime option" where
  \<comment> \<open>\<^verbatim>\<open>datetime(year, month, day, hour, minute, second)\<close>; \<open>None\<close> is its ValueError.\<close>
  "mk_datetime year month day hour minute second =
     (if 1 \<le> year \<and> year \<le> 9999 \<and> 1 \<le> month \<and> month \<le> 12
         \<and> 1 \<le> day \<and> day \<le> days_in_month year month
         \<and> 0 \<le> hour \<and> hour \<le> 23 \<and> 0 \<le> minute \<and> minute \<le> 59 \<and> 0 \<le> second \<and> second \<le> 59
      then Some (DT (((days_before_year year + days_before_month year month + day - 1) * 86400
                       + hour * 3600 + minute * 60 + second) * 1000000) None)
      else None)"

fun fromisoformat_ext :: "string \<Rightarrow> datetime option" where
  "fromisoformat_ext [y1, y2, y3, y4, s1, m1, m2, s2, d1, d2, sep, h1, h2, c1, n1, n2, c2, e1, e2] =
     (if s1 = CHR ''-'' \<and> s2 = CHR ''-'' \<and> c1 = CHR '':'' \<and> c2 = CHR '':'' then
        (case (number [y1, y2, y3, y4], number [m1, m2], number [d1, d2]) of
           (Some year, Some month, Some day) \<Rightarrow>
             (case (number [h1, h2], number [n1, n2], number [e1, e2]) of
                (Some hour, Some minute, Some second) \<Rightarrow>
                  mk_datetime year month day hour minute second
              | _ \<Rightarrow> None)
         | _ \<Rightarrow> None)
      else None)"
| "fromisoformat_ext _ = None"

subsection \<open>The active-appointment resolver\<close>

definition eligible :: "dict \<Rightarrow> bool" where
  \<comment> \<open>\<^verbatim>\<open>apt.get("status") == "booked" and apt.get("patient_id")\<close>\<close>
  "eligible apt =
     (dict_get apt ''status'' = Some (JStr ''booked'')
      \<and> (case dict_get apt ''patient_id'' of None \<Rightarrow> False | Some v \<Rightarrow> truthy v))"

definition start_time_of :: "(string \<Rightarrow> datetime option) \<Rightarrow> dict \<Rightarrow> py_error + datetime" where
  \<comment> \<open>\<^verbatim>\<open>datetime.fromisoformat(apt["start"])\<close>: KeyError for a missing key, TypeError for
      a value that is not a string, ValueError for a string the parser rejects.\<close>
  "start_time_of parse apt =
     (case dict_get apt ''start'' of
        None \<Rightarrow> Inl KeyError
      | Some (JStr s) \<Rightarrow> (case parse s of None \<Rightarrow> Inl ValueError | Some t \<Rightarrow> Inr t)
      | Some _ \<Rightarrow> Inl TypeError)"

definition duration_minutes :: "dict \<Rightarrow> json" where
  \<comment> \<open>\<^verbatim>\<open>apt.get("slot_duration", 30)\<close>: the default is taken for an absent key only.\<close>
  "duration_minutes apt = (case dict_get apt ''slot_duration'' of None \<Rightarrow> JInt 30 | Some v \<Rightarrow> v)"

definition try_body :: "(string \<Rightarrow> datetime option) \<Rightarrow> datetime \<Rightarrow> dict \<Rightarrow> py_error + bool" where
  \<comment> \<open>The body of the \<^verbatim>\<open>try\<close> (lines 103 to 110): \<open>Inr True\<close> when the record is
      appended, \<open>Inl e\<close> when e is raised. The debug line printed before the append reads
      \<^verbatim>\<open>apt['id']\<close>, which raises KeyError when the record has no id.\<close>
  "try_body parse now apt =
     (case start_time_of parse apt of
        Inl e \<Rightarrow> Inl e
      | Inr start_time \<Rightarrow>
          (case timedelta_minutes (duration_minutes apt) of
             Inl e \<Rightarrow> Inl e
           | Inr td \<Rightarrow>
               (case dt_add start_time td of
                  Inl e \<Rightarrow> Inl e
                | Inr end_time \<Rightarrow>
                    (case dt_le start_time now of
                       Inl e \<Rightarrow> Inl e
                     | Inr False \<Rightarrow> Inr False
                     | Inr True \<Rightarrow>
                         (case dt_lt now end_time of
                            Inl e \<Rightarrow> Inl e
                          | Inr False \<Rightarrow> Inr False
                          | Inr True \<Rightarrow>
                              (if dict_get apt ''id'' = None then Inl KeyError
                               else Inr True))))))"

fun active_loop ::
  "(string \<Rightarrow> datetime option) \<Rightarrow> datetime \<Rightarrow> dict list \<Rightarrow> dict list \<Rightarrow> py_error + dict list" where
  \<comment> \<open>The \<^verbatim>\<open>for apt in appointments\<close> loop, with \<^verbatim>\<open>active_appointments\<close> as the
      accumulator; \<^verbatim>\<open>except (ValueError, KeyError): continue\<close> skips the record, any
      other exception leaves the loop.\<close>
  "active_loop parse now active_appointments [] = Inr active_appointments"
| "active_loop parse now active_appointments (apt # rest) =
     (if eligible apt then
        (case try_body parse now apt of
           Inl e \<Rightarrow>
             (if e = ValueError \<or> e = KeyError
              then active_loop parse now active_appointments rest
              else Inl e)
         | Inr True \<Rightarrow> active_loop parse now (active_appointments @ [apt]) rest
         | Inr False \<Rightarrow> active_loop parse now active_appointments rest)
      else active_loop parse now active_appointments rest)"

definition start_key :: "dict \<Rightarrow> string" where
  \<comment> \<open>\<^verbatim>\<open>lambda x: x.get("start", "")\<close>. Every record the loops keep has a string under
      \<^verbatim>\<open>start\<close> (the parser was given it), so the keys that are compared are strings.\<close>
  "start_key x = (case dict_get x ''start'' of Some (JStr s) \<Rightarrow> s | _ \<Rightarrow> [])"

definition normalized_now :: "int \<Rightarrow> py_error + datetime" where
  \<comment> \<open>\<^verbatim>\<open>(utc_now + est_offset).replace(tzinfo=None)\<close>, for the aware UTC instant
      \<^verbatim>\<open>datetime.now(timezone.utc)\<close> given by its microseconds.\<close>
  "normalized_now utc_now =
     (case dt_add (DT utc_now (Some 0)) est_offset of
        Inl e \<Rightarrow> Inl e
      | Inr shifted \<Rightarrow> Inr (DT (ticks shifted) None))"

definition resolve_active ::
  "(string \<Rightarrow> datetime option) \<Rightarrow> datetime \<Rightarrow> dict list \<Rightarrow> py_error + dict" where
  \<comment> \<open>Lines 94 to 127: the scan, the empty dict when nothing is active, the sort by
      \<^verbatim>\<open>start\<close> (Python's sort is stable, as \<open>sort_key\<close> is) and element 0.\<close>
  "resolve_active parse now appointments =
     (case active_loop parse now [] appointments of
        Inl e \<Rightarrow> Inl e
      | Inr active_appointments \<Rightarrow>
          (if active_appointments = [] then Inr []
           else (case sort_key start_key active_appointments of
                   [] \<Rightarrow> Inl IndexError
                 | result # _ \<Rightarrow> Inr result)))"

definition get_active_appointment ::
  "(string \<Rightarrow> datetime option) \<Rightarrow> dict list \<Rightarrow> int \<Rightarrow> py_error + dict" where
  \<comment> \<open>The handler of GET /api/appointments/active. \<open>Inl e\<close>: the exception e reached
      \<^verbatim>\<open>except Exception\<close> and the handler raised \<^verbatim>\<open>HTTPException(status_code=500)\<close>.\<close>
  "get_active_appointment parse appointments utc_now =
     (case normalized_now utc_now of
        Inl e \<Rightarrow> Inl e
      | Inr now \<Rightarrow> resolve_active parse now appointments)"

subsection \<open>The per-patient current-appointment query\<close>

definition dt_ge :: "datetime \<Rightarrow> datetime \<Rightarrow> py_error + bool" where
  \<comment> \<open>\<^verbatim>\<open>a >= b\<close>.\<close>
  "dt_ge a b =
     (case (tzinfo a, tzinfo b) of
        (None, None) \<Rightarrow> Inr (ticks a \<ge> ticks b)
      | (Some oa, Some ob) \<Rightarrow> Inr (ticks a - oa \<ge> ticks b - ob)
      | _ \<Rightarrow> Inl TypeError)"

definition for_patient :: "int \<Rightarrow> dict \<Rightarrow> bool" where
  \<comment> \<open>\<^verbatim>\<open>apt.get("patient_id") == patient_id and apt.get("status") == "booked"\<close>\<close>
  "for_patient patient_id apt =
     (py_eq_int (dict_get apt ''patient_id'') patient_id
      \<and> dict_get apt ''status'' = Some (JStr ''booked''))"

fun upcoming_loop ::
  "(string \<Rightarrow> datetime option) \<Rightarrow> int \<Rightarrow> datetime \<Rightarrow> dict list \<Rightarrow> dict list \<Rightarrow> py_error + dict list" where
  \<comment> \<open>The loop of lines 143 to 147, with \<^verbatim>\<open>upcoming\<close> as the accumulator. Nothing is
      caught here: every exception leaves the loop and the handler.\<close>
  "upcoming_loop parse patient_id now upcoming [] = Inr upcoming"
| "upcoming_loop parse patient_id now upcoming (apt # rest) =
     (if for_patient patient_id apt then
        (case start_time_of parse apt of
           Inl e \<Rightarrow> Inl e
         | Inr start_time \<Rightarrow>
             (case dt_ge start_time now of
                Inl e \<Rightarrow> Inl e
              | Inr True \<Rightarrow> upcoming_loop parse patient_id now (upcoming @ [apt]) rest
              | Inr False \<Rightarrow> upcoming_loop parse patient_id now upcoming rest))
      else upcoming_loop parse patient_id now upcoming rest)"

definition get_current_appointment ::
  "(string \<Rightarrow> datetime option) \<Rightarrow> int \<Rightarrow> dict list \<Rightarrow> int \<Rightarrow> py_error + dict option" where
  \<comment> \<open>The handler of GET /api/patients/{patient_id}/current-appointment, with
      \<^verbatim>\<open>now = datetime.now()\<close> (naive) given by its microseconds. \<open>Inr None\<close> is
      \<^verbatim>\<open>return None\<close>; \<open>Inl e\<close>: the exception e left the handler.\<close>
  "get_current_appointment parse patient_id appointments now =
     (case upcoming_loop parse patient_id (DT now None) [] appointments of
        Inl e \<Rightarrow> Inl e
      | Inr upcoming \<Rightarrow>
          (if upcoming = [] then Inr None
           else (case sort_key start_key upcoming of
                   [] \<Rightarrow> Inl IndexError
                 | first # _ \<Rightarrow> Inr (Some first))))"

subsection \<open>What a record does in each loop\<close>

text \<open>
  The outcome of one loop iteration, named so that the theorems can speak of the records of
  a list: a record is active when the resolver appends it, fatal when it raises an exception
  that the resolver does not catch; likewise for the per-patient query, which catches
  nothing.
\<close>

definition active_at :: "(string \<Rightarrow> datetime option) \<Rightarrow> datetime \<Rightarrow> dict \<Rightarrow> bool" where
  "active_at parse now apt = (eligible apt \<and> try_body parse now apt = Inr True)"

definition fatal_at :: "(string \<Rightarrow> datetime option) \<Rightarrow> datetime \<Rightarrow> dict \<Rightarrow> bool" where
  "fatal_at parse now apt =
     (eligible apt \<and>
      (case try_body parse now apt of
         Inl e \<Rightarrow> e \<noteq> ValueError \<and> e \<noteq> KeyError
       | Inr _ \<Rightarrow> False))"

definition upcoming_at :: "(string \<Rightarrow> datetime option) \<Rightarrow> int \<Rightarrow> datetime \<Rightarrow> dict \<Rightarrow> bool" where
  "upcoming_at parse patient_id now apt =
     (for_patient patient_id apt \<and>
      (case start_time_of parse apt of
         Inl e \<Rightarrow> False
       | Inr start_time \<Rightarrow> dt_ge start_time now = Inr True))"

definition fatal_current :: "(string \<Rightarrow> datetime option) \<Rightarrow> int \<Rightarrow> datetime \<Rightarrow> dict \<Rightarrow> bool" where
  "fatal_current parse patient_id now apt =
     (for_patient patient_id apt \<and>
      (case start_time_of parse apt of
         Inl e \<Rightarrow> True
       | Inr start_time \<Rightarrow> (case dt_ge start_time now of Inl e \<Rightarrow> True | Inr _ \<Rightarrow> False)))"

definition start_instant :: "(string \<Rightarrow> datetime option) \<Rightarrow> dict \<Rightarrow> int option" where
  \<comment> \<open>The instant of a record whose \<^verbatim>\<open>start\<close> is a string that parses to a naive datetime.\<close>
  "start_instant parse apt =
     (case start_time_of parse apt of
        Inr (DT t None) \<Rightarrow> Some t
      | _ \<Rightarrow> None)"

text \<open>
  The records on which the try body of the resolver raises nothing but what line 111 catches,
  told by their fields: the start of an eligible record is missing, or it is a string; if the
  string parses, the datetime is naive, the slot_duration is missing or an integer, and the
  window ends inside the range of \<^verbatim>\<open>datetime\<close>.
\<close>

definition well_formed :: "(string \<Rightarrow> datetime option) \<Rightarrow> dict \<Rightarrow> bool" where
  "well_formed parse apt =
     (if eligible apt then
        (case dict_get apt ''start'' of
           None \<Rightarrow> True
         | Some (JStr s) \<Rightarrow>
             (case parse s of
                None \<Rightarrow> True
              | Some start_time \<Rightarrow>
                  tzinfo start_time = None
                  \<and> (case duration_minutes apt of
                        JInt d \<Rightarrow>
                          - 999999999 * 86400000000 \<le> d * 60000000
                          \<and> d * 60000000 < 1000000000 * 86400000000
                          \<and> 0 \<le> ticks start_time + d * 60000000
                          \<and> ticks start_time + d * 60000000 \<le> MAX_TICKS
                      | _ \<Rightarrow> False))
         | Some _ \<Rightarrow> False)
      else True)"

subsection \<open>Concrete records and instants\<close>

definition appointment :: "int \<Rightarrow> string \<Rightarrow> json \<Rightarrow> string \<Rightarrow> json \<Rightarrow> dict" where
  \<comment> \<open>A record with the five keys that \<^verbatim>\<open>scripts/generate_data.py\<close> writes.\<close>
  "appointment i status patient start duration =
     [(''id'', JInt i), (''status'', JStr status), (''start'', JStr start),
      (''slot_duration'', duration), (''patient_id'', patient)]"

definition on_2025_12_12 :: "int \<Rightarrow> int \<Rightarrow> int \<Rightarrow> int" where
  \<comment> \<open>The microseconds of 2025-12-12 at the given hour, minute and second; 2025-12-12 is
      day 739597 of the calendar (\<^verbatim>\<open>date(2025, 12, 12).toordinal()\<close>).\<close>
  "on_2025_12_12 h m s = ((739596 * 86400 + h * 3600 + m * 60 + s) * 1000000)"

section \<open>Properties of the loops and of the selection\<close>

lemma active_loop_ok:
  "\<forall>a\<in>set xs. \<not> fatal_at parse now a \<Longrightarrow>
   active_loop parse now acc xs = Inr (acc @ filter (active_at parse now) xs)"
proof (induction xs arbitrary: acc)
  case Nil
  then show ?case by simp
next
  case (Cons a xs)
  then show ?case
    by (auto simp: active_at_def fatal_at_def split: sum.splits bool.splits)
qed

lemma active_loop_fatal:
  "\<exists>a\<in>set xs. fatal_at parse now a \<Longrightarrow> \<exists>e. active_loop parse now acc xs = Inl e"
proof (induction xs arbitrary: acc)
  case Nil
  then show ?case by simp
next
  case (Cons a xs)
  then show ?case
    by (auto simp: fatal_at_def split: sum.splits bool.splits)
qed

lemma sort_key_head:
  fixes f :: "'a \<Rightarrow> 'k::linorder"
  assumes "xs \<noteq> []"
  shows "\<exists>r rest. sort_key f xs = r # rest \<and> r \<in> set xs \<and> (\<forall>a\<in>set xs. f r \<le> f a)
           \<and> filter (\<lambda>y. f y = f r) xs = r # filter (\<lambda>y. f y = f r) rest"
proof -
  from assms have "sort_key f xs \<noteq> []"
    by (metis length_sort length_0_conv)
  then obtain r rest where eq: "sort_key f xs = r # rest"
    by (cases "sort_key f xs") auto
  have mem: "r \<in> set xs"
    using eq set_sort [of f xs] by (metis list.set_intros(1))
  have "sorted (map f (r # rest))"
    using sorted_sort_key [of f xs] eq by simp
  then have "\<forall>a\<in>set (r # rest). f r \<le> f a"
    by auto
  then have le: "\<forall>a\<in>set xs. f r \<le> f a"
    using eq set_sort [of f xs] by metis
  have "filter (\<lambda>y. f y = f r) (sort_key f xs) = filter (\<lambda>y. f y = f r) xs"
    by (rule sort_key_stable)
  then have "filter (\<lambda>y. f y = f r) xs = r # filter (\<lambda>y. f y = f r) rest"
    using eq by simp
  with eq mem le show ?thesis by blast
qed

lemma first_of_filtered:
  assumes "filter Q (filter P xs) = r # rest"
  shows "\<exists>pre post. xs = pre @ r # post \<and> (\<forall>a\<in>set pre. P a \<longrightarrow> \<not> Q a)"
proof -
  from assms have "filter (\<lambda>x. P x \<and> Q x) xs = r # rest"
    by (simp add: conj_commute)
  then obtain us vs where "xs = us @ r # vs" and "\<forall>u\<in>set us. \<not> (P u \<and> Q u)"
    unfolding filter_eq_Cons_iff by blast
  then show ?thesis by blast
qed

lemma eligible_nonempty: "eligible a \<Longrightarrow> a \<noteq> []"
  by (auto simp: eligible_def dict_get_def)

lemma resolve_active_ok:
  assumes nf: "\<forall>a\<in>set apts. \<not> fatal_at parse now a"
  shows "\<exists>r. resolve_active parse now apts = Inr r \<and>
           (if \<forall>a\<in>set apts. \<not> active_at parse now a then r = []
            else active_at parse now r \<and> r \<in> set apts
                 \<and> (\<forall>a\<in>set apts. active_at parse now a \<longrightarrow> start_key r \<le> start_key a)
                 \<and> (\<exists>pre post. apts = pre @ r # post
                       \<and> (\<forall>a\<in>set pre. active_at parse now a \<longrightarrow> start_key a \<noteq> start_key r)))"
proof -
  let ?act = "filter (active_at parse now) apts"
  have loop: "active_loop parse now [] apts = Inr ?act"
    using active_loop_ok [OF nf, of "[]"] by simp
  show ?thesis
  proof (cases "?act = []")
    case True
    then have "\<forall>a\<in>set apts. \<not> active_at parse now a"
      by (simp add: filter_empty_conv)
    with True loop show ?thesis
      by (simp add: resolve_active_def)
  next
    case False
    then have ex: "\<not> (\<forall>a\<in>set apts. \<not> active_at parse now a)"
      by (simp add: filter_empty_conv)
    from sort_key_head [OF False, of start_key]
    obtain r rest where sk: "sort_key start_key ?act = r # rest"
      and mem: "r \<in> set ?act"
      and le: "\<forall>a\<in>set ?act. start_key r \<le> start_key a"
      and st: "filter (\<lambda>y. start_key y = start_key r) ?act
                 = r # filter (\<lambda>y. start_key y = start_key r) rest"
      by blast
    from first_of_filtered [OF st]
    have split: "\<exists>pre post. apts = pre @ r # post
                  \<and> (\<forall>a\<in>set pre. active_at parse now a \<longrightarrow> start_key a \<noteq> start_key r)"
      by simp
    have res: "resolve_active parse now apts = Inr r"
      using loop False sk by (simp add: resolve_active_def)
    have act: "active_at parse now r" and mem': "r \<in> set apts"
      using mem by simp_all
    have le': "\<forall>a\<in>set apts. active_at parse now a \<longrightarrow> start_key r \<le> start_key a"
      using le by simp
    show ?thesis
      using res ex act mem' le' split by (simp only: if_False simp_thms) blast
  qed
qed

lemma resolve_active_fatal:
  assumes "\<exists>a\<in>set apts. fatal_at parse now a"
  shows "\<exists>e. resolve_active parse now apts = Inl e"
  using active_loop_fatal [OF assms, of "[]"] by (auto simp: resolve_active_def)

lemma resolve_active_Inr_no_fatal:
  assumes "resolve_active parse now apts = Inr r"
  shows "\<forall>a\<in>set apts. \<not> fatal_at parse now a"
  using assms resolve_active_fatal [of apts parse now] by auto

lemma start_instant_Some:
  "start_instant parse apt = Some t \<longleftrightarrow> start_time_of parse apt = Inr (DT t None)"
  by (auto simp: start_instant_def split: sum.splits datetime.splits option.splits)

lemma try_body_window:
  assumes id: "dict_get apt ''id'' \<noteq> None"
    and st: "start_instant parse apt = Some t"
    and du: "duration_minutes apt = JInt d"
    and t0: "0 \<le> t" and t1: "t \<le> MAX_TICKS"
    and e0: "0 \<le> t + d * 60000000" and e1: "t + d * 60000000 \<le> MAX_TICKS"
  shows "try_body parse (DT n None) apt = Inr (t \<le> n \<and> n < t + d * 60000000)"
proof -
  have s: "start_time_of parse apt = Inr (DT t None)"
    using st by (simp add: start_instant_Some)
  have "- 999999999 * 86400000000 \<le> d * 60000000 \<and> d * 60000000 < 1000000000 * 86400000000"
    using t0 t1 e0 e1 by (simp add: MAX_TICKS_def)
  then have td: "timedelta_minutes (duration_minutes apt) = Inr (d * 60000000)"
    using du by (simp add: timedelta_def)
  have ad: "dt_add (DT t None) (d * 60000000) = Inr (DT (t + d * 60000000) None)"
    using e0 e1 by (simp add: dt_add_def)
  show ?thesis
    using id by (cases "t \<le> n"; cases "n < t + d * 60000000")
      (auto simp: try_body_def s td ad dt_le_def dt_lt_def)
qed

lemma normalized_now_Inr:
  "normalized_now u = Inr now \<longleftrightarrow>
     (0 \<le> u - 18000000000 \<and> u - 18000000000 \<le> MAX_TICKS \<and> now = DT (u - 18000000000) None)"
  by (auto simp: normalized_now_def dt_add_def est_offset_def Let_def)

lemma get_active_appointment_Inr:
  "get_active_appointment parse apts u = Inr r \<longleftrightarrow>
     (\<exists>now. normalized_now u = Inr now \<and> resolve_active parse now apts = Inr r)"
  by (auto simp: get_active_appointment_def split: sum.splits)

lemma active_at_window:
  assumes "eligible apt" and "dict_get apt ''id'' \<noteq> None"
    and "start_instant parse apt = Some t"
    and "duration_minutes apt = JInt d"
    and "0 \<le> t" and "t \<le> MAX_TICKS"
    and "0 \<le> t + d * 60000000" and "t + d * 60000000 \<le> MAX_TICKS"
  shows "active_at parse (DT n None) apt \<longleftrightarrow> t \<le> n \<and> n < t + d * 60000000"
  using assms(1) try_body_window [OF assms(2-8), of n] by (simp add: active_at_def)

lemma not_fatal_window:
  assumes "dict_get apt ''id'' \<noteq> None"
    and "start_instant parse apt = Some t"
    and "duration_minutes apt = JInt d"
    and "0 \<le> t" and "t \<le> MAX_TICKS"
    and "0 \<le> t + d * 60000000" and "t + d * 60000000 \<le> MAX_TICKS"
  shows "\<not> fatal_at parse (DT n None) apt"
  using try_body_window [OF assms, of n] by (simp add: fatal_at_def)

lemma resolve_active_single:
  assumes "\<not> fatal_at parse now apt"
  shows "resolve_active parse now [apt] = Inr (if active_at parse now apt then apt else [])"
proof -
  have "active_loop parse now [] [apt] = Inr (filter (active_at parse now) [apt])"
    using active_loop_ok [of "[apt]" parse now "[]"] assms by simp
  then show ?thesis
    by (simp add: resolve_active_def)
qed

lemma well_formed_not_fatal:
  assumes "well_formed parse apt"
  shows "\<not> fatal_at parse (DT n None) apt"
proof (cases "eligible apt")
  case False
  then show ?thesis by (simp add: fatal_at_def)
next
  case True
  show ?thesis
  proof (cases "start_time_of parse apt")
    case (Inl e)
    then have "e = KeyError \<or> e = ValueError"
      using assms True
      by (auto simp: well_formed_def start_time_of_def split: option.splits json.splits)
    then show ?thesis
      using Inl by (auto simp: fatal_at_def try_body_def)
  next
    case (Inr st)
    then obtain s where s: "dict_get apt ''start'' = Some (JStr s)" "parse s = Some st"
      by (auto simp: start_time_of_def split: option.splits json.splits)
    with assms True obtain d where tz: "tzinfo st = None"
      and d: "duration_minutes apt = JInt d"
      and r: "- 999999999 * 86400000000 \<le> d * 60000000"
        "d * 60000000 < 1000000000 * 86400000000"
        "0 \<le> ticks st + d * 60000000" "ticks st + d * 60000000 \<le> MAX_TICKS"
      by (auto simp: well_formed_def split: json.splits)
    have td: "timedelta_minutes (duration_minutes apt) = Inr (d * 60000000)"
      using d r by (simp add: timedelta_def)
    have ad: "dt_add st (d * 60000000) = Inr (DT (ticks st + d * 60000000) None)"
      using r tz by (simp add: dt_add_def)
    have "try_body parse (DT n None) apt = Inr True
          \<or> try_body parse (DT n None) apt = Inr False
          \<or> try_body parse (DT n None) apt = Inl KeyError"
      using tz by (cases "ticks st \<le> n"; cases "n < ticks st + d * 60000000")
        (auto simp: try_body_def Inr td ad dt_le_def dt_lt_def)
    then show ?thesis
      by (auto simp: fatal_at_def)
  qed
qed

lemma active_at_sound:
  assumes "active_at parse (DT n None) apt"
  shows "\<exists>t us. start_instant parse apt = Some t
           \<and> timedelta_minutes (duration_minutes apt) = Inr us
           \<and> t \<le> n \<and> n < t + us"
proof -
  from assms have tb: "try_body parse (DT n None) apt = Inr True"
    by (simp add: active_at_def)
  then obtain st where st: "start_time_of parse apt = Inr st"
    by (cases "start_time_of parse apt") (auto simp: try_body_def)
  from tb st obtain us where us: "timedelta_minutes (duration_minutes apt) = Inr us"
    by (cases "timedelta_minutes (duration_minutes apt)") (auto simp: try_body_def)
  from tb st us obtain en where en: "dt_add st us = Inr en"
    by (cases "dt_add st us") (auto simp: try_body_def)
  have le: "dt_le st (DT n None) = Inr True"
    using tb st us en by (auto simp: try_body_def split: sum.splits bool.splits)
  then have lt: "dt_lt (DT n None) en = Inr True"
    using tb st us en by (auto simp: try_body_def split: sum.splits bool.splits)
  have tz: "tzinfo st = None"
    using le by (cases "tzinfo st") (auto simp: dt_le_def)
  have e: "en = DT (ticks st + us) None"
    using en tz by (auto simp: dt_add_def Let_def split: if_splits)
  have "ticks st \<le> n"
    using le tz by (simp add: dt_le_def)
  moreover have "n < ticks st + us"
    using lt e by (simp add: dt_lt_def)
  moreover have "start_instant parse apt = Some (ticks st)"
    using st tz by (cases st) (simp add: start_instant_def)
  ultimately show ?thesis
    using us by blast
qed

section \<open>The claims\<close>

text \<open>
  C1. For every list of appointment records and every current instant, the resolver returns
  at most one record, and when zero records match it returns the empty object, not an error.
  The handler answers an error for a list in which nothing matches when an eligible record
  raises an exception that line 111 does not catch: a booked record that starts at
  9999-12-31T23:45:00 lies in the future, and adding its 30 minutes leaves the range of
  \<^verbatim>\<open>datetime\<close> (OverflowError).
\<close>

theorem window_past_the_last_datetime_fails_the_call:
  "eligible (appointment 9 ''booked'' (JInt 7) ''9999-12-31T23:45:00'' (JInt 30))
   \<and> start_instant fromisoformat_ext
        (appointment 9 ''booked'' (JInt 7) ''9999-12-31T23:45:00'' (JInt 30))
       = Some 315537896700000000
   \<and> on_2025_12_12 9 15 0 < 315537896700000000
   \<and> normalized_now (on_2025_12_12 14 15 0) = Inr (DT (on_2025_12_12 9 15 0) None)
   \<and> get_active_appointment fromisoformat_ext
        [appointment 9 ''booked'' (JInt 7) ''9999-12-31T23:45:00'' (JInt 30)]
        (on_2025_12_12 14 15 0) = Inl OverflowError"
  by code_simp

text \<open>
  C1, amended. For every list of well-formed appointment records (the start of an eligible
  record is missing or a string which, when it parses, gives a naive datetime; its
  slot_duration is then missing or an integer, and its window ends inside the range of
  \<^verbatim>\<open>datetime\<close>) and every current instant that the shift keeps in that range, the
  resolver returns one dictionary: the empty one exactly when no record matches, and
  otherwise a record of the list that matches.
\<close>

theorem resolver_returns_at_most_one_record:
  assumes now: "normalized_now utc_now = Inr now"
    and wf: "\<forall>a\<in>set appointments. well_formed parse a"
  shows "\<exists>result. get_active_appointment parse appointments utc_now = Inr result
           \<and> (result = [] \<longleftrightarrow> (\<forall>a\<in>set appointments. \<not> active_at parse now a))
           \<and> (result \<noteq> [] \<longrightarrow> result \<in> set appointments \<and> active_at parse now result)"
proof -
  obtain n where n: "now = DT n None"
    using now by (auto simp: normalized_now_Inr)
  have nf: "\<forall>a\<in>set appointments. \<not> fatal_at parse now a"
    using wf well_formed_not_fatal unfolding n by blast
  from resolve_active_ok [OF nf]
  obtain r where res: "resolve_active parse now appointments = Inr r"
    and sel: "if \<forall>a\<in>set appointments. \<not> active_at parse now a then r = []
              else active_at parse now r \<and> r \<in> set appointments"
    by (auto split: if_splits)
  have get: "get_active_appointment parse appointments utc_now = Inr r"
    using now res by (simp add: get_active_appointment_def)
  have "r = [] \<longleftrightarrow> (\<forall>a\<in>set appointments. \<not> active_at parse now a)"
    using sel eligible_nonempty [of r] by (auto simp: active_at_def split: if_splits)
  moreover have "r \<noteq> [] \<longrightarrow> r \<in> set appointments \<and> active_at parse now r"
    using sel by (auto split: if_splits)
  ultimately show ?thesis
    using get by blast
qed

theorem resolver_returns_at_most_one_record_witness:
  "well_formed fromisoformat_ext (appointment 2 ''available'' JNull ''2025-12-12T09:00:00'' (JInt 30))
   \<and> well_formed fromisoformat_ext
        (appointment 1 ''booked'' (JInt 7) ''2025-12-12T09:00:00'' (JInt 30))
   \<and> well_formed fromisoformat_ext
        (appointment 3 ''booked'' (JInt 8) ''2025-12-12T10:00:00'' (JInt 30))
   \<and> normalized_now (on_2025_12_12 14 45 0) = Inr (DT (on_2025_12_12 9 45 0) None)
   \<and> get_active_appointment fromisoformat_ext
        [appointment 2 ''available'' JNull ''2025-12-12T09:00:00'' (JInt 30),
         appointment 1 ''booked'' (JInt 7) ''2025-12-12T09:00:00'' (JInt 30),
         appointment 3 ''booked'' (JInt 8) ''2025-12-12T10:00:00'' (JInt 30)]
        (on_2025_12_12 14 45 0) = Inr []
   \<and> normalized_now (on_2025_12_12 14 15 0) = Inr (DT (on_2025_12_12 9 15 0) None)
   \<and> get_active_appointment fromisoformat_ext
        [appointment 2 ''available'' JNull ''2025-12-12T09:00:00'' (JInt 30),
         appointment 1 ''booked'' (JInt 7) ''2025-12-12T09:00:00'' (JInt 30),
         appointment 3 ''booked'' (JInt 8) ''2025-12-12T10:00:00'' (JInt 30)]
        (on_2025_12_12 14 15 0)
       = Inr (appointment 1 ''booked'' (JInt 7) ''2025-12-12T09:00:00'' (JInt 30))"
proof -
  define free where "free = appointment 2 ''available'' JNull ''2025-12-12T09:00:00'' (JInt 30)"
  define a where "a = appointment 1 ''booked'' (JInt 7) ''2025-12-12T09:00:00'' (JInt 30)"
  define b where "b = appointment 3 ''booked'' (JInt 8) ''2025-12-12T10:00:00'' (JInt 30)"
  define late where "late = DT (on_2025_12_12 9 45 0) None"
  define early where "early = DT (on_2025_12_12 9 15 0) None"
  define u_late where "u_late = on_2025_12_12 14 45 0"
  define u_early where "u_early = on_2025_12_12 14 15 0"
  have w: "well_formed fromisoformat_ext free" "well_formed fromisoformat_ext a"
    "well_formed fromisoformat_ext b"
    unfolding free_def a_def b_def by code_simp+
  have wf: "\<forall>x\<in>set [free, a, b]. well_formed fromisoformat_ext x"
    using w by simp
  have n1: "normalized_now u_late = Inr late"
    unfolding u_late_def late_def by code_simp
  have n2: "normalized_now u_early = Inr early"
    unfolding u_early_def early_def by code_simp
  have none: "\<not> active_at fromisoformat_ext late free" "\<not> active_at fromisoformat_ext late a"
    "\<not> active_at fromisoformat_ext late b"
    unfolding free_def a_def b_def late_def by code_simp+
  have one: "\<not> active_at fromisoformat_ext early free" "active_at fromisoformat_ext early a"
    "\<not> active_at fromisoformat_ext early b"
    unfolding free_def a_def b_def early_def by code_simp+
  have all_none: "\<forall>x\<in>set [free, a, b]. \<not> active_at fromisoformat_ext late x"
    using none by simp
  from resolver_returns_at_most_one_record [OF n1 wf] all_none
  have r1: "get_active_appointment fromisoformat_ext [free, a, b] u_late = Inr []"
    by metis
  have some: "\<not> (\<forall>x\<in>set [free, a, b]. \<not> active_at fromisoformat_ext early x)"
    using one by simp
  from resolver_returns_at_most_one_record [OF n2 wf]
  obtain r where r: "get_active_appointment fromisoformat_ext [free, a, b] u_early = Inr r"
    and e: "r = [] \<longleftrightarrow> (\<forall>x\<in>set [free, a, b]. \<not> active_at fromisoformat_ext early x)"
    and m: "r \<noteq> [] \<longrightarrow> r \<in> set [free, a, b] \<and> active_at fromisoformat_ext early r"
    by blast
  from e some m have "r \<in> set [free, a, b]" and "active_at fromisoformat_ext early r"
    by blast+
  then have "r = a"
    using one by auto
  with r have r2: "get_active_appointment fromisoformat_ext [free, a, b] u_early = Inr a"
    by simp
  from w n1 r1 n2 r2 show ?thesis
    unfolding free_def a_def b_def late_def early_def u_late_def u_early_def by blast
qed



lemma active_loop_append:
  "active_loop parse now acc (xs @ ys) =
     (case active_loop parse now acc xs of
        Inl e \<Rightarrow> Inl e
      | Inr acc' \<Rightarrow> active_loop parse now acc' ys)"
  by (induction xs arbitrary: acc) (auto split: sum.splits bool.splits)

lemma active_loop_skip:
  assumes "\<not> active_at parse now a" and "\<not> fatal_at parse now a"
  shows "active_loop parse now acc (a # ys) = active_loop parse now acc ys"
  using assms by (auto simp: active_at_def fatal_at_def split: sum.splits bool.splits)

lemma get_active_appointment_skip:
  assumes "\<not> active_at parse (DT (utc_now - 18000000000) None) a"
    and "\<not> fatal_at parse (DT (utc_now - 18000000000) None) a"
  shows "get_active_appointment parse (xs @ a # ys) utc_now
           = get_active_appointment parse (xs @ ys) utc_now"
proof (cases "normalized_now utc_now")
  case (Inl e)
  then show ?thesis by (simp add: get_active_appointment_def)
next
  case (Inr now)
  then have now: "now = DT (utc_now - 18000000000) None"
    by (simp add: normalized_now_Inr)
  have "active_loop parse now [] (xs @ a # ys) = active_loop parse now [] (xs @ ys)"
    using assms active_loop_skip [of parse now a _ ys]
    by (simp add: active_loop_append now split: sum.splits)
  then show ?thesis
    using Inr by (simp add: get_active_appointment_def resolve_active_def)
qed

lemma truthy_iff:
  "truthy v \<longleftrightarrow> v \<notin> {JNull, JBool False, JInt 0, JStr [], JList [], JObj []}"
  by (cases v) auto

text \<open>
  C3. The resolver discards a record exactly when its status is not "booked" or its
  patient_id is absent or null, and every booked record with a present, non-null patient_id
  is eligible. The test is \<^verbatim>\<open>apt.get("patient_id")\<close>, the truth value of the field, so a
  booked record whose patient_id is 0 is discarded too.
\<close>

theorem booked_patient_zero_is_discarded:
  "dict_get (appointment 1 ''booked'' (JInt 0) ''2025-12-12T09:00:00'' (JInt 30)) ''status''
     = Some (JStr ''booked'')
   \<and> dict_get (appointment 1 ''booked'' (JInt 0) ''2025-12-12T09:00:00'' (JInt 30)) ''patient_id''
     = Some (JInt 0)
   \<and> \<not> eligible (appointment 1 ''booked'' (JInt 0) ''2025-12-12T09:00:00'' (JInt 30))
   \<and> get_active_appointment fromisoformat_ext
        [appointment 1 ''booked'' (JInt 0) ''2025-12-12T09:00:00'' (JInt 30)]
        (on_2025_12_12 14 15 0) = Inr []
   \<and> get_active_appointment fromisoformat_ext
        [appointment 1 ''booked'' (JInt 7) ''2025-12-12T09:00:00'' (JInt 30)]
        (on_2025_12_12 14 15 0)
       = Inr (appointment 1 ''booked'' (JInt 7) ''2025-12-12T09:00:00'' (JInt 30))"
  by code_simp

text \<open>
  C3, amended. A record is eligible exactly when its status is "booked" and its patient_id is
  present and true in Python's sense: not null, \<^verbatim>\<open>false\<close>, 0, the empty string, the empty
  list or the empty object. The resolver never returns a record that is not eligible, and
  such a record in the list changes nothing in the result.
\<close>

theorem eligible_iff_booked_and_truthy_patient:
  "(eligible apt \<longleftrightarrow>
      dict_get apt ''status'' = Some (JStr ''booked'')
      \<and> (\<exists>v. dict_get apt ''patient_id'' = Some v
             \<and> v \<notin> {JNull, JBool False, JInt 0, JStr [], JList [], JObj []}))
   \<and> (get_active_appointment parse appointments utc_now = Inr result \<and> result \<noteq> []
        \<longrightarrow> eligible result)
   \<and> (\<not> eligible apt \<longrightarrow>
        get_active_appointment parse (before @ apt # after) utc_now
          = get_active_appointment parse (before @ after) utc_now)"
proof (intro conjI impI)
  show "eligible apt \<longleftrightarrow>
      dict_get apt ''status'' = Some (JStr ''booked'')
      \<and> (\<exists>v. dict_get apt ''patient_id'' = Some v
             \<and> v \<notin> {JNull, JBool False, JInt 0, JStr [], JList [], JObj []})"
    unfolding eligible_def by (cases "dict_get apt ''patient_id''") (simp_all add: truthy_iff)
next
  assume a: "get_active_appointment parse appointments utc_now = Inr result \<and> result \<noteq> []"
  then obtain now where now: "normalized_now utc_now = Inr now"
    and res: "resolve_active parse now appointments = Inr result"
    by (auto simp: get_active_appointment_Inr)
  from resolve_active_ok [OF resolve_active_Inr_no_fatal [OF res]] res a
  have "active_at parse now result"
    by (auto split: if_splits)
  then show "eligible result"
    by (simp add: active_at_def)
next
  assume "\<not> eligible apt"
  then show "get_active_appointment parse (before @ apt # after) utc_now
          = get_active_appointment parse (before @ after) utc_now"
    by (intro get_active_appointment_skip) (simp_all add: active_at_def fatal_at_def)
qed

theorem eligible_iff_booked_and_truthy_patient_witness:
  "\<not> eligible (appointment 2 ''available'' JNull ''2025-12-12T09:00:00'' (JInt 30))
   \<and> get_active_appointment fromisoformat_ext
        ([] @ appointment 2 ''available'' JNull ''2025-12-12T09:00:00'' (JInt 30)
            # [appointment 1 ''booked'' (JInt 7) ''2025-12-12T09:00:00'' (JInt 30)])
        (on_2025_12_12 14 15 0)
       = Inr (appointment 1 ''booked'' (JInt 7) ''2025-12-12T09:00:00'' (JInt 30))
   \<and> appointment 1 ''booked'' (JInt 7) ''2025-12-12T09:00:00'' (JInt 30) \<noteq> []
   \<and> eligible (appointment 1 ''booked'' (JInt 7) ''2025-12-12T09:00:00'' (JInt 30))"
proof -
  let ?free = "appointment 2 ''available'' JNull ''2025-12-12T09:00:00'' (JInt 30)"
  let ?a = "appointment 1 ''booked'' (JInt 7) ''2025-12-12T09:00:00'' (JInt 30)"
  note inst = eligible_iff_booked_and_truthy_patient
    [of ?free fromisoformat_ext "[] @ [?a]" "on_2025_12_12 14 15 0" ?a "[]" "[?a]"]
  have ne: "\<not> eligible ?free" by code_simp
  have r: "get_active_appointment fromisoformat_ext ([] @ [?a]) (on_2025_12_12 14 15 0) = Inr ?a"
    by code_simp
  have nonempty: "?a \<noteq> []" by code_simp
  from inst ne r
  have skip: "get_active_appointment fromisoformat_ext ([] @ ?free # [?a]) (on_2025_12_12 14 15 0)
                = Inr ?a"
    by simp
  from inst r nonempty have "eligible ?a"
    by blast
  with ne skip nonempty show ?thesis by blast
qed

text \<open>
  C4. For every eligible record whose slot_duration is missing or null, the resolver takes
  30 minutes as the duration. \<^verbatim>\<open>apt.get("slot_duration", 30)\<close> gives the default for a
  missing key only: a null value reaches \<^verbatim>\<open>timedelta(minutes=None)\<close>, which raises
  TypeError, and the handler fails.
\<close>

theorem null_slot_duration_fails_the_call:
  "dict_get (appointment 1 ''booked'' (JInt 7) ''2025-12-12T09:00:00'' JNull) ''slot_duration''
     = Some JNull
   \<and> get_active_appointment fromisoformat_ext
        [appointment 1 ''booked'' (JInt 7) ''2025-12-12T09:00:00'' JNull]
        (on_2025_12_12 14 15 0) = Inl TypeError
   \<and> get_active_appointment fromisoformat_ext
        [appointment 1 ''booked'' (JInt 7) ''2025-12-12T09:00:00'' (JInt 30)]
        (on_2025_12_12 14 15 0)
       = Inr (appointment 1 ''booked'' (JInt 7) ''2025-12-12T09:00:00'' (JInt 30))"
  by code_simp

text \<open>
  C4, amended. For every eligible record whose slot_duration key is missing, the resolver
  takes 30 minutes as the duration: the record is active exactly from its start, inclusive,
  to 30 minutes later, exclusive.
\<close>

theorem missing_slot_duration_is_30_minutes:
  assumes el: "eligible apt" and id: "dict_get apt ''id'' \<noteq> None"
    and st: "start_instant parse apt = Some t"
    and du: "dict_get apt ''slot_duration'' = None"
    and t0: "0 \<le> t" and e1: "t + 30 * 60000000 \<le> MAX_TICKS"
    and now: "normalized_now utc_now = Inr (DT n None)"
  shows "duration_minutes apt = JInt 30
       \<and> (active_at parse (DT n None) apt \<longleftrightarrow> t \<le> n \<and> n < t + 30 * 60000000)
       \<and> get_active_appointment parse [apt] utc_now
           = Inr (if t \<le> n \<and> n < t + 30 * 60000000 then apt else [])"
proof -
  have d: "duration_minutes apt = JInt 30"
    using du by (simp add: duration_minutes_def)
  have t1: "t \<le> MAX_TICKS" and e0: "0 \<le> t + 30 * 60000000"
    using t0 e1 by simp_all
  have w: "active_at parse (DT n None) apt \<longleftrightarrow> t \<le> n \<and> n < t + 30 * 60000000"
    by (rule active_at_window [OF el id st d t0 t1 e0 e1])
  have nf: "\<not> fatal_at parse (DT n None) apt"
    by (rule not_fatal_window [OF id st d t0 t1 e0 e1])
  have "get_active_appointment parse [apt] utc_now
          = Inr (if active_at parse (DT n None) apt then apt else [])"
    using now resolve_active_single [OF nf] by (simp add: get_active_appointment_def)
  with d w show ?thesis by simp
qed

theorem missing_slot_duration_is_30_minutes_witness:
  "dict_get [(''id'', JInt 1), (''status'', JStr ''booked''), (''patient_id'', JInt 7),
             (''start'', JStr ''2025-12-12T09:00:00'')] ''slot_duration'' = None
   \<and> normalized_now (on_2025_12_12 14 29 59) = Inr (DT (on_2025_12_12 9 29 59) None)
   \<and> get_active_appointment fromisoformat_ext
        [[(''id'', JInt 1), (''status'', JStr ''booked''), (''patient_id'', JInt 7),
          (''start'', JStr ''2025-12-12T09:00:00'')]]
        (on_2025_12_12 14 29 59)
       = Inr [(''id'', JInt 1), (''status'', JStr ''booked''), (''patient_id'', JInt 7),
              (''start'', JStr ''2025-12-12T09:00:00'')]"
proof -
  let ?a = "[(''id'', JInt 1), (''status'', JStr ''booked''), (''patient_id'', JInt 7),
             (''start'', JStr ''2025-12-12T09:00:00'')]"
  have el: "eligible ?a" by code_simp
  have id: "dict_get ?a ''id'' \<noteq> None" by code_simp
  have st: "start_instant fromisoformat_ext ?a = Some (on_2025_12_12 9 0 0)" by code_simp
  have du: "dict_get ?a ''slot_duration'' = None" by code_simp
  have t0: "0 \<le> on_2025_12_12 9 0 0" by code_simp
  have e1: "on_2025_12_12 9 0 0 + 30 * 60000000 \<le> MAX_TICKS" by code_simp
  have now: "normalized_now (on_2025_12_12 14 29 59) = Inr (DT (on_2025_12_12 9 29 59) None)"
    by code_simp
  have inside: "on_2025_12_12 9 0 0 \<le> on_2025_12_12 9 29 59
                 \<and> on_2025_12_12 9 29 59 < on_2025_12_12 9 0 0 + 30 * 60000000"
    by code_simp
  from missing_slot_duration_is_30_minutes [OF el id st du t0 e1 now] inside
  have "get_active_appointment fromisoformat_ext [?a] (on_2025_12_12 14 29 59) = Inr ?a"
    by simp
  with du now show ?thesis by blast
qed

text \<open>
  C5. For every current instant of the UTC clock, the resolver compares the appointment
  windows with that instant shifted by a fixed offset of minus 5 hours, whatever the date,
  and with the timezone dropped: a record is returned exactly when
  \<open>start \<le> utc_now - 5 hours < start + d minutes\<close>, and whatever the handler returns from
  any list has \<open>utc_now - 5 hours\<close> inside its window. The instant is one that the shift
  keeps inside the range of \<^verbatim>\<open>datetime\<close>.
\<close>

theorem now_is_utc_minus_five_hours:
  assumes lo: "0 \<le> utc_now - 5 * 3600 * 1000000"
    and hi: "utc_now - 5 * 3600 * 1000000 \<le> MAX_TICKS"
    and el: "eligible apt" and id: "dict_get apt ''id'' \<noteq> None"
    and st: "start_instant parse apt = Some t"
    and du: "dict_get apt ''slot_duration'' = Some (JInt d)"
    and t0: "0 \<le> t" and t1: "t \<le> MAX_TICKS"
    and e0: "0 \<le> t + d * 60000000" and e1: "t + d * 60000000 \<le> MAX_TICKS"
  shows "normalized_now utc_now = Inr (DT (utc_now - 5 * 3600 * 1000000) None)
       \<and> get_active_appointment parse [apt] utc_now
           = Inr (if t \<le> utc_now - 5 * 3600 * 1000000
                     \<and> utc_now - 5 * 3600 * 1000000 < t + d * 60000000
                  then apt else [])
       \<and> (\<forall>appointments result.
             get_active_appointment parse appointments utc_now = Inr result \<and> result \<noteq> []
             \<longrightarrow> (\<exists>t' us. start_instant parse result = Some t'
                    \<and> timedelta_minutes (duration_minutes result) = Inr us
                    \<and> t' \<le> utc_now - 5 * 3600 * 1000000
                    \<and> utc_now - 5 * 3600 * 1000000 < t' + us))"
proof -
  let ?n = "utc_now - 5 * 3600 * 1000000"
  have now: "normalized_now utc_now = Inr (DT ?n None)"
    using lo hi by (simp add: normalized_now_Inr)
  have dm: "duration_minutes apt = JInt d"
    using du by (simp add: duration_minutes_def)
  have w: "active_at parse (DT ?n None) apt \<longleftrightarrow> t \<le> ?n \<and> ?n < t + d * 60000000"
    by (rule active_at_window [OF el id st dm t0 t1 e0 e1])
  have nf: "\<not> fatal_at parse (DT ?n None) apt"
    by (rule not_fatal_window [OF id st dm t0 t1 e0 e1])
  have single: "get_active_appointment parse [apt] utc_now
          = Inr (if t \<le> ?n \<and> ?n < t + d * 60000000 then apt else [])"
    using now resolve_active_single [OF nf] w by (simp add: get_active_appointment_def)
  have any: "\<exists>t' us. start_instant parse result = Some t'
                    \<and> timedelta_minutes (duration_minutes result) = Inr us
                    \<and> t' \<le> ?n \<and> ?n < t' + us"
    if g: "get_active_appointment parse appointments utc_now = Inr result" and ne: "result \<noteq> []"
    for appointments result
  proof -
    have res: "resolve_active parse (DT ?n None) appointments = Inr result"
      using g now by (simp add: get_active_appointment_def)
    from resolve_active_ok [OF resolve_active_Inr_no_fatal [OF res]] res ne
    have "active_at parse (DT ?n None) result"
      by (auto split: if_splits)
    then show ?thesis
      by (rule active_at_sound)
  qed
  show ?thesis
    using now single any by blast
qed

theorem now_is_utc_minus_five_hours_witness:
  "0 \<le> on_2025_12_12 14 15 0 - 5 * 3600 * 1000000
   \<and> on_2025_12_12 14 15 0 - 5 * 3600 * 1000000 \<le> MAX_TICKS
   \<and> on_2025_12_12 14 15 0 - 5 * 3600 * 1000000 = on_2025_12_12 9 15 0
   \<and> start_instant fromisoformat_ext
        (appointment 1 ''booked'' (JInt 7) ''2025-12-12T09:00:00'' (JInt 30))
       = Some (on_2025_12_12 9 0 0)
   \<and> get_active_appointment fromisoformat_ext
        [appointment 1 ''booked'' (JInt 7) ''2025-12-12T09:00:00'' (JInt 30)]
        (on_2025_12_12 14 15 0)
       = Inr (appointment 1 ''booked'' (JInt 7) ''2025-12-12T09:00:00'' (JInt 30))
   \<and> 0 \<le> on_2025_12_12 9 15 0 - 5 * 3600 * 1000000
   \<and> on_2025_12_12 9 15 0 - 5 * 3600 * 1000000 \<le> MAX_TICKS
   \<and> get_active_appointment fromisoformat_ext
        [appointment 1 ''booked'' (JInt 7) ''2025-12-12T09:00:00'' (JInt 30)]
        (on_2025_12_12 9 15 0) = Inr []"
proof -
  define a where "a = appointment 1 ''booked'' (JInt 7) ''2025-12-12T09:00:00'' (JInt 30)"
  define t where "t = on_2025_12_12 9 0 0"
  define u1 where "u1 = on_2025_12_12 14 15 0"
  define u2 where "u2 = on_2025_12_12 9 15 0"
  have el: "eligible a" unfolding a_def by code_simp
  have id: "dict_get a ''id'' \<noteq> None" unfolding a_def by code_simp
  have st: "start_instant fromisoformat_ext a = Some t" unfolding a_def t_def by code_simp
  have du: "dict_get a ''slot_duration'' = Some (JInt 30)" unfolding a_def by code_simp
  have t0: "0 \<le> t" unfolding t_def by code_simp
  have t1: "t \<le> MAX_TICKS" unfolding t_def by code_simp
  have e0: "0 \<le> t + 30 * 60000000" unfolding t_def by code_simp
  have e1: "t + 30 * 60000000 \<le> MAX_TICKS" unfolding t_def by code_simp
  have lo1: "0 \<le> u1 - 5 * 3600 * 1000000" unfolding u1_def by code_simp
  have hi1: "u1 - 5 * 3600 * 1000000 \<le> MAX_TICKS" unfolding u1_def by code_simp
  have lo2: "0 \<le> u2 - 5 * 3600 * 1000000" unfolding u2_def by code_simp
  have hi2: "u2 - 5 * 3600 * 1000000 \<le> MAX_TICKS" unfolding u2_def by code_simp
  have eq: "u1 - 5 * 3600 * 1000000 = on_2025_12_12 9 15 0" unfolding u1_def by code_simp
  have in1: "t \<le> u1 - 5 * 3600 * 1000000 \<and> u1 - 5 * 3600 * 1000000 < t + 30 * 60000000"
    unfolding t_def u1_def by code_simp
  have out2: "\<not> t \<le> u2 - 5 * 3600 * 1000000"
    unfolding t_def u2_def by code_simp
  from now_is_utc_minus_five_hours [OF lo1 hi1 el id st du t0 t1 e0 e1] in1
  have r1: "get_active_appointment fromisoformat_ext [a] u1 = Inr a"
    by simp
  from now_is_utc_minus_five_hours [OF lo2 hi2 el id st du t0 t1 e0 e1] out2
  have r2: "get_active_appointment fromisoformat_ext [a] u2 = Inr []"
    by simp
  from lo1 hi1 eq st r1 lo2 hi2 r2 show ?thesis
    unfolding a_def t_def u1_def u2_def by blast
qed

lemma bad_start_not_active_nor_fatal:
  assumes "dict_get bad ''start'' = None
           \<or> (\<exists>s. dict_get bad ''start'' = Some (JStr s) \<and> parse s = None)"
  shows "\<not> active_at parse now bad" and "\<not> fatal_at parse now bad"
proof -
  have "start_time_of parse bad = Inl KeyError \<or> start_time_of parse bad = Inl ValueError"
    using assms by (auto simp: start_time_of_def)
  then have "try_body parse now bad = Inl KeyError \<or> try_body parse now bad = Inl ValueError"
    by (auto simp: try_body_def)
  then show "\<not> active_at parse now bad" and "\<not> fatal_at parse now bad"
    by (auto simp: active_at_def fatal_at_def)
qed

text \<open>
  What the handler of line 111 does cover: a record whose start key is missing (KeyError) or
  whose start string the parser rejects (ValueError) leaves the result what it is without
  that record.
\<close>

lemma malformed_start_is_skipped:
  assumes "dict_get bad ''start'' = None
           \<or> (\<exists>s. dict_get bad ''start'' = Some (JStr s) \<and> parse s = None)"
  shows "get_active_appointment parse (before @ bad # after) utc_now
           = get_active_appointment parse (before @ after) utc_now"
  by (intro get_active_appointment_skip bad_start_not_active_nor_fatal [OF assms])

text \<open>
  C6. In the active-appointment resolver, a record whose start cannot be parsed as a
  timestamp, or is missing, is skipped without failing the call, and does not suppress a
  match on another record of the list. The handler catches ValueError and KeyError under the
  comment \<^verbatim>\<open># Skip invalid appointment entries\<close>; a start that is null (or any value that
  is not a string) makes \<^verbatim>\<open>fromisoformat\<close> raise TypeError, which is not in the list of
  line 111: the call fails and the match on the other record is lost.
\<close>

theorem null_start_fails_the_call:
  "get_active_appointment fromisoformat_ext
     [[(''id'', JInt 6), (''status'', JStr ''booked''), (''start'', JNull),
       (''slot_duration'', JInt 30), (''patient_id'', JInt 8)],
      appointment 1 ''booked'' (JInt 7) ''2025-12-12T09:00:00'' (JInt 30)]
     (on_2025_12_12 14 15 0) = Inl TypeError
   \<and> get_active_appointment fromisoformat_ext
        [appointment 1 ''booked'' (JInt 7) ''2025-12-12T09:00:00'' (JInt 30)]
        (on_2025_12_12 14 15 0)
       = Inr (appointment 1 ''booked'' (JInt 7) ''2025-12-12T09:00:00'' (JInt 30))
   \<and> get_active_appointment fromisoformat_ext
        [appointment 6 ''booked'' (JInt 8) ''12/12/2025 9am'' (JInt 30),
         appointment 1 ''booked'' (JInt 7) ''2025-12-12T09:00:00'' (JInt 30)]
        (on_2025_12_12 14 15 0)
       = Inr (appointment 1 ''booked'' (JInt 7) ''2025-12-12T09:00:00'' (JInt 30))"
  by code_simp

lemma active_at_start_instant:
  assumes "active_at parse (DT n None) a"
  shows "\<exists>t. start_instant parse a = Some t"
proof -
  from assms have tb: "try_body parse (DT n None) a = Inr True"
    by (simp add: active_at_def)
  then obtain st where st: "start_time_of parse a = Inr st"
    by (cases "start_time_of parse a") (auto simp: try_body_def)
  have "dt_le st (DT n None) \<noteq> Inl TypeError"
    using tb st by (auto simp: try_body_def split: sum.splits bool.splits)
  then have "tzinfo st = None"
    by (cases "tzinfo st") (auto simp: dt_le_def)
  then show ?thesis
    using st by (cases st) (simp add: start_instant_def)
qed

lemma fatal_at_permuted:
  assumes "mset ys = mset xs" and "\<forall>a\<in>set xs. \<not> fatal_at parse now a"
  shows "\<forall>a\<in>set ys. \<not> fatal_at parse now a"
  using assms mset_eq_setD by blast

lemma resolve_active_permuted:
  assumes res: "resolve_active parse now xs = Inr r" and ne: "r \<noteq> []"
    and perm: "mset ys = mset xs"
    and inj: "inj_on start_key {a \<in> set xs. active_at parse now a}"
  shows "resolve_active parse now ys = Inr r"
proof -
  have nfx: "\<forall>a\<in>set xs. \<not> fatal_at parse now a"
    by (rule resolve_active_Inr_no_fatal [OF res])
  have nfy: "\<forall>a\<in>set ys. \<not> fatal_at parse now a"
    by (rule fatal_at_permuted [OF perm nfx])
  have sets: "set ys = set xs"
    using perm by (rule mset_eq_setD)
  from resolve_active_ok [OF nfx] res ne
  have rx: "active_at parse now r" "r \<in> set xs"
    "\<forall>a\<in>set xs. active_at parse now a \<longrightarrow> start_key r \<le> start_key a"
    by (auto split: if_splits)
  then have some: "\<not> (\<forall>a\<in>set ys. \<not> active_at parse now a)"
    using sets by blast
  from resolve_active_ok [OF nfy] some
  obtain r' where res': "resolve_active parse now ys = Inr r'"
    and ry: "active_at parse now r'" "r' \<in> set ys"
      "\<forall>a\<in>set ys. active_at parse now a \<longrightarrow> start_key r' \<le> start_key a"
    by (auto split: if_splits)
  have "start_key r \<le> start_key r'"
    using rx(3) ry(1,2) sets by blast
  moreover have "start_key r' \<le> start_key r"
    using ry(3) rx(1,2) sets by blast
  ultimately have "start_key r' = start_key r"
    by simp
  then have "r' = r"
    using inj rx(1,2) ry(1,2) sets by (auto dest: inj_onD)
  with res' show ?thesis by simp
qed

text \<open>
  C7. When two or more eligible records match, the resolver returns the one with the
  temporally smallest start, and the result is the same for every permutation of the list.
  The selection sorts by the \<^verbatim>\<open>start\<close> string with a stable sort and takes element 0:
  of two matching records with the same start, the one that comes first in the list is
  returned, so the order of the list decides.
\<close>

theorem equal_starts_follow_input_order:
  "mset [appointment 4 ''booked'' (JInt 8) ''2025-12-12T09:00:00'' (JInt 30),
         appointment 3 ''booked'' (JInt 7) ''2025-12-12T09:00:00'' (JInt 30)]
     = mset [appointment 3 ''booked'' (JInt 7) ''2025-12-12T09:00:00'' (JInt 30),
             appointment 4 ''booked'' (JInt 8) ''2025-12-12T09:00:00'' (JInt 30)]
   \<and> get_active_appointment fromisoformat_ext
        [appointment 3 ''booked'' (JInt 7) ''2025-12-12T09:00:00'' (JInt 30),
         appointment 4 ''booked'' (JInt 8) ''2025-12-12T09:00:00'' (JInt 30)]
        (on_2025_12_12 14 20 0)
       = Inr (appointment 3 ''booked'' (JInt 7) ''2025-12-12T09:00:00'' (JInt 30))
   \<and> get_active_appointment fromisoformat_ext
        [appointment 4 ''booked'' (JInt 8) ''2025-12-12T09:00:00'' (JInt 30),
         appointment 3 ''booked'' (JInt 7) ''2025-12-12T09:00:00'' (JInt 30)]
        (on_2025_12_12 14 20 0)
       = Inr (appointment 4 ''booked'' (JInt 8) ''2025-12-12T09:00:00'' (JInt 30))
   \<and> appointment 3 ''booked'' (JInt 7) ''2025-12-12T09:00:00'' (JInt 30)
       \<noteq> appointment 4 ''booked'' (JInt 8) ''2025-12-12T09:00:00'' (JInt 30)"
proof (intro conjI)
  show "mset [appointment 4 ''booked'' (JInt 8) ''2025-12-12T09:00:00'' (JInt 30),
         appointment 3 ''booked'' (JInt 7) ''2025-12-12T09:00:00'' (JInt 30)]
     = mset [appointment 3 ''booked'' (JInt 7) ''2025-12-12T09:00:00'' (JInt 30),
             appointment 4 ''booked'' (JInt 8) ''2025-12-12T09:00:00'' (JInt 30)]"
    by (simp add: add.commute)
qed code_simp+

text \<open>
  C7, amended. When at least one record matches, the resolver returns a matching record
  whose \<^verbatim>\<open>start\<close> string is lexicographically smallest among the matching records, and
  of the matching records with that same string the first of the list. The result is the
  same for every permutation of the list when the matching records have pairwise different
  start strings; and it is the temporally smallest start when, on the matching records, the
  order of the strings agrees with the order of the instants (as it does for strings of one
  format \<^verbatim>\<open>YYYY-MM-DDTHH:MM:SS\<close>).
\<close>

theorem resolver_selects_smallest_start_string:
  assumes get: "get_active_appointment parse appointments utc_now = Inr result"
    and ne: "result \<noteq> []"
    and now: "normalized_now utc_now = Inr now"
  shows "active_at parse now result \<and> result \<in> set appointments
       \<and> (\<forall>a\<in>set appointments. active_at parse now a \<longrightarrow> start_key result \<le> start_key a)
       \<and> (\<exists>pre post. appointments = pre @ result # post
             \<and> (\<forall>a\<in>set pre. active_at parse now a \<longrightarrow> start_key a \<noteq> start_key result))
       \<and> (\<forall>permuted. mset permuted = mset appointments
             \<and> inj_on start_key {a \<in> set appointments. active_at parse now a}
             \<longrightarrow> get_active_appointment parse permuted utc_now = Inr result)
       \<and> ((\<forall>a\<in>set appointments. \<forall>b\<in>set appointments. \<forall>ta tb.
               active_at parse now a \<and> active_at parse now b \<and> start_key a \<le> start_key b
               \<and> start_instant parse a = Some ta \<and> start_instant parse b = Some tb
               \<longrightarrow> ta \<le> tb)
            \<longrightarrow> (\<exists>tr. start_instant parse result = Some tr
                   \<and> (\<forall>a\<in>set appointments. active_at parse now a
                        \<longrightarrow> (\<exists>ta. start_instant parse a = Some ta \<and> tr \<le> ta))))"
proof -
  have res: "resolve_active parse now appointments = Inr result"
    using get now by (simp add: get_active_appointment_def)
  obtain n where n: "now = DT n None"
    using now by (auto simp: normalized_now_Inr)
  from resolve_active_ok [OF resolve_active_Inr_no_fatal [OF res]] res ne
  have act: "active_at parse now result" and mem: "result \<in> set appointments"
    and le: "\<forall>a\<in>set appointments. active_at parse now a \<longrightarrow> start_key result \<le> start_key a"
    and first: "\<exists>pre post. appointments = pre @ result # post
             \<and> (\<forall>a\<in>set pre. active_at parse now a \<longrightarrow> start_key a \<noteq> start_key result)"
    by (auto split: if_splits)
  have perm: "\<forall>permuted. mset permuted = mset appointments
             \<and> inj_on start_key {a \<in> set appointments. active_at parse now a}
             \<longrightarrow> get_active_appointment parse permuted utc_now = Inr result"
    using resolve_active_permuted [OF res ne] now by (simp add: get_active_appointment_def)
  have temporal: "\<exists>tr. start_instant parse result = Some tr
                   \<and> (\<forall>a\<in>set appointments. active_at parse now a
                        \<longrightarrow> (\<exists>ta. start_instant parse a = Some ta \<and> tr \<le> ta))"
    if mono: "\<forall>a\<in>set appointments. \<forall>b\<in>set appointments. \<forall>ta tb.
               active_at parse now a \<and> active_at parse now b \<and> start_key a \<le> start_key b
               \<and> start_instant parse a = Some ta \<and> start_instant parse b = Some tb
               \<longrightarrow> ta \<le> tb"
  proof -
    obtain tr where tr: "start_instant parse result = Some tr"
      using active_at_start_instant act n by blast
    have "\<exists>ta. start_instant parse a = Some ta \<and> tr \<le> ta"
      if a: "a \<in> set appointments" "active_at parse now a" for a
    proof -
      obtain ta where ta: "start_instant parse a = Some ta"
        using active_at_start_instant a(2) n by blast
      have "start_key result \<le> start_key a"
        using le a by blast
      then have "tr \<le> ta"
        using mono mem a act tr ta by blast
      with ta show ?thesis by blast
    qed
    with tr show ?thesis by blast
  qed
  show ?thesis
    using act mem le first perm temporal by blast
qed

theorem resolver_selects_smallest_start_string_witness:
  "get_active_appointment fromisoformat_ext
     [appointment 4 ''booked'' (JInt 8) ''2025-12-12T09:10:00'' (JInt 30),
      appointment 3 ''booked'' (JInt 7) ''2025-12-12T09:00:00'' (JInt 30)]
     (on_2025_12_12 14 20 0)
    = Inr (appointment 3 ''booked'' (JInt 7) ''2025-12-12T09:00:00'' (JInt 30))
   \<and> normalized_now (on_2025_12_12 14 20 0) = Inr (DT (on_2025_12_12 9 20 0) None)
   \<and> start_key (appointment 3 ''booked'' (JInt 7) ''2025-12-12T09:00:00'' (JInt 30))
       \<le> start_key (appointment 4 ''booked'' (JInt 8) ''2025-12-12T09:10:00'' (JInt 30))
   \<and> get_active_appointment fromisoformat_ext
        [appointment 3 ''booked'' (JInt 7) ''2025-12-12T09:00:00'' (JInt 30),
         appointment 4 ''booked'' (JInt 8) ''2025-12-12T09:10:00'' (JInt 30)]
        (on_2025_12_12 14 20 0)
       = Inr (appointment 3 ''booked'' (JInt 7) ''2025-12-12T09:00:00'' (JInt 30))
   \<and> (\<exists>tr. start_instant fromisoformat_ext
               (appointment 3 ''booked'' (JInt 7) ''2025-12-12T09:00:00'' (JInt 30)) = Some tr
          \<and> (\<exists>ta. start_instant fromisoformat_ext
                 (appointment 4 ''booked'' (JInt 8) ''2025-12-12T09:10:00'' (JInt 30)) = Some ta
               \<and> tr \<le> ta))"
proof -
  let ?d4 = "appointment 4 ''booked'' (JInt 8) ''2025-12-12T09:10:00'' (JInt 30)"
  let ?d3 = "appointment 3 ''booked'' (JInt 7) ''2025-12-12T09:00:00'' (JInt 30)"
  let ?now = "DT (on_2025_12_12 9 20 0) None"
  have get: "get_active_appointment fromisoformat_ext [?d4, ?d3] (on_2025_12_12 14 20 0) = Inr ?d3"
    by code_simp
  have ne: "?d3 \<noteq> []" by code_simp
  have now: "normalized_now (on_2025_12_12 14 20 0) = Inr ?now" by code_simp
  have a4: "active_at fromisoformat_ext ?now ?d4" by code_simp
  have k: "start_key ?d4 \<noteq> start_key ?d3" by code_simp
  have k2: "\<not> start_key ?d4 \<le> start_key ?d3" by code_simp
  have i3: "start_instant fromisoformat_ext ?d3 = Some (on_2025_12_12 9 0 0)" by code_simp
  have i4: "start_instant fromisoformat_ext ?d4 = Some (on_2025_12_12 9 10 0)" by code_simp
  have lt: "on_2025_12_12 9 0 0 \<le> on_2025_12_12 9 10 0" by code_simp
  have perm: "mset [?d3, ?d4] = mset [?d4, ?d3]"
    by (simp add: add.commute)
  have inj: "inj_on start_key {a \<in> set [?d4, ?d3]. active_at fromisoformat_ext ?now a}"
    using k by (auto simp: inj_on_def)
  have mono: "\<forall>a\<in>set [?d4, ?d3]. \<forall>b\<in>set [?d4, ?d3]. \<forall>ta tb.
               active_at fromisoformat_ext ?now a \<and> active_at fromisoformat_ext ?now b
               \<and> start_key a \<le> start_key b
               \<and> start_instant fromisoformat_ext a = Some ta
               \<and> start_instant fromisoformat_ext b = Some tb
               \<longrightarrow> ta \<le> tb"
    using k2 i3 i4 lt by auto
  note inst = resolver_selects_smallest_start_string [OF get ne now]
  from inst have le: "start_key ?d3 \<le> start_key ?d4"
    using a4 by simp
  from inst perm inj
  have same: "get_active_appointment fromisoformat_ext [?d3, ?d4] (on_2025_12_12 14 20 0) = Inr ?d3"
    by blast
  from inst mono
  have "\<exists>tr. start_instant fromisoformat_ext ?d3 = Some tr
          \<and> (\<forall>a\<in>set [?d4, ?d3]. active_at fromisoformat_ext ?now a
                \<longrightarrow> (\<exists>ta. start_instant fromisoformat_ext a = Some ta \<and> tr \<le> ta))"
    by blast
  then have temporal: "\<exists>tr. start_instant fromisoformat_ext ?d3 = Some tr
          \<and> (\<exists>ta. start_instant fromisoformat_ext ?d4 = Some ta \<and> tr \<le> ta)"
    using a4 by auto
  from get now le same temporal show ?thesis by blast
qed

lemma upcoming_loop_ok:
  "\<forall>a\<in>set xs. \<not> fatal_current parse pid now a \<Longrightarrow>
   upcoming_loop parse pid now acc xs = Inr (acc @ filter (upcoming_at parse pid now) xs)"
proof (induction xs arbitrary: acc)
  case Nil
  then show ?case by simp
next
  case (Cons a xs)
  then show ?case
    by (auto simp: upcoming_at_def fatal_current_def split: sum.splits bool.splits)
qed

lemma upcoming_loop_step_fatal:
  "fatal_current parse pid now a \<Longrightarrow> \<exists>e. upcoming_loop parse pid now acc (a # xs) = Inl e"
  by (simp add: fatal_current_def split: sum.splits bool.splits)

lemma upcoming_loop_step_ok:
  "\<not> fatal_current parse pid now a \<Longrightarrow>
   \<exists>acc'. upcoming_loop parse pid now acc (a # xs) = upcoming_loop parse pid now acc' xs"
  by (auto simp: fatal_current_def split: sum.splits bool.splits)

lemma upcoming_loop_fatal:
  "\<exists>a\<in>set xs. fatal_current parse pid now a \<Longrightarrow>
   \<exists>e. upcoming_loop parse pid now acc xs = Inl e"
proof (induction xs arbitrary: acc)
  case Nil
  then show ?case by simp
next
  case (Cons a xs)
  show ?case
  proof (cases "fatal_current parse pid now a")
    case True
    then show ?thesis by (rule upcoming_loop_step_fatal)
  next
    case False
    with Cons.prems have "\<exists>a\<in>set xs. fatal_current parse pid now a"
      by simp
    then have "\<And>acc'. \<exists>e. upcoming_loop parse pid now acc' xs = Inl e"
      by (rule Cons.IH)
    with upcoming_loop_step_ok [OF False, of acc xs] show ?thesis
      by metis
  qed
qed

lemma upcoming_at_iff:
  "upcoming_at parse pid (DT n None) a \<longleftrightarrow>
     for_patient pid a \<and> (\<exists>t. start_instant parse a = Some t \<and> n \<le> t)"
proof (cases "start_time_of parse a")
  case (Inl e)
  then show ?thesis
    by (simp add: upcoming_at_def start_instant_def)
next
  case (Inr st)
  then show ?thesis
    by (cases st; cases "tzinfo st")
      (auto simp: upcoming_at_def start_instant_def dt_ge_def)
qed

lemma not_fatal_current:
  assumes "for_patient pid a \<longrightarrow> (\<exists>t. start_instant parse a = Some t)"
  shows "\<not> fatal_current parse pid (DT n None) a"
proof (cases "for_patient pid a")
  case False
  then show ?thesis by (simp add: fatal_current_def)
next
  case True
  with assms obtain t where "start_instant parse a = Some t" by blast
  then have "start_time_of parse a = Inr (DT t None)"
    by (simp add: start_instant_Some)
  then show ?thesis
    by (simp add: fatal_current_def dt_ge_def)
qed

lemma get_current_appointment_ok:
  assumes nf: "\<forall>a\<in>set apts. \<not> fatal_current parse pid (DT n None) a"
  shows "\<exists>res. get_current_appointment parse pid apts n = Inr res \<and>
           (if \<forall>a\<in>set apts. \<not> upcoming_at parse pid (DT n None) a then res = None
            else \<exists>first. res = Some first \<and> upcoming_at parse pid (DT n None) first
                   \<and> first \<in> set apts
                   \<and> (\<forall>a\<in>set apts. upcoming_at parse pid (DT n None) a
                         \<longrightarrow> start_key first \<le> start_key a))"
proof -
  let ?up = "filter (upcoming_at parse pid (DT n None)) apts"
  have loop: "upcoming_loop parse pid (DT n None) [] apts = Inr ?up"
    using upcoming_loop_ok [OF nf, of "[]"] by simp
  show ?thesis
  proof (cases "?up = []")
    case True
    then have "\<forall>a\<in>set apts. \<not> upcoming_at parse pid (DT n None) a"
      by (simp add: filter_empty_conv)
    with True loop show ?thesis
      by (simp add: get_current_appointment_def)
  next
    case False
    then have ex: "\<not> (\<forall>a\<in>set apts. \<not> upcoming_at parse pid (DT n None) a)"
      by (simp add: filter_empty_conv)
    from sort_key_head [OF False, of start_key]
    obtain r rest where sk: "sort_key start_key ?up = r # rest"
      and mem: "r \<in> set ?up"
      and le: "\<forall>a\<in>set ?up. start_key r \<le> start_key a"
      by blast
    have res: "get_current_appointment parse pid apts n = Inr (Some r)"
      using loop False sk by (simp add: get_current_appointment_def)
    have up: "upcoming_at parse pid (DT n None) r" and mem': "r \<in> set apts"
      using mem by simp_all
    have le': "\<forall>a\<in>set apts. upcoming_at parse pid (DT n None) a \<longrightarrow> start_key r \<le> start_key a"
      using le by simp
    show ?thesis
      using res ex up mem' le' by (simp only: if_False simp_thms) blast
  qed
qed

lemma get_current_appointment_fatal:
  assumes "\<exists>a\<in>set apts. fatal_current parse pid (DT n None) a"
  shows "\<exists>e. get_current_appointment parse pid apts n = Inl e"
  using upcoming_loop_fatal [OF assms, of "[]"] by (auto simp: get_current_appointment_def)

text \<open>
  What the per-patient query returns when every booked record of the patient has a start
  that parses to a naive datetime: \<^verbatim>\<open>None\<close> exactly when no such record starts at or
  after the raw instant, and otherwise a record that does and whose \<^verbatim>\<open>start\<close> string is
  the smallest; that is the smallest instant when string order and time order agree.
\<close>

lemma current_appointment_smallest_start_string:
  assumes wf: "\<forall>a\<in>set appointments.
                 for_patient patient_id a \<longrightarrow> (\<exists>t. start_instant parse a = Some t)"
  shows "\<exists>res. get_current_appointment parse patient_id appointments now = Inr res
       \<and> (res = None \<longleftrightarrow>
            (\<forall>a\<in>set appointments.
               \<not> (for_patient patient_id a \<and> (\<exists>t. start_instant parse a = Some t \<and> now \<le> t))))
       \<and> (\<forall>first. res = Some first \<longrightarrow>
             first \<in> set appointments \<and> for_patient patient_id first
             \<and> (\<exists>tf. start_instant parse first = Some tf \<and> now \<le> tf
                  \<and> (\<forall>a\<in>set appointments. \<forall>t.
                        for_patient patient_id a \<and> start_instant parse a = Some t \<and> now \<le> t
                        \<longrightarrow> start_key first \<le> start_key a
                            \<and> ((\<forall>b\<in>set appointments. \<forall>c\<in>set appointments. \<forall>tb tc.
                                   start_key b \<le> start_key c \<and> start_instant parse b = Some tb
                                   \<and> start_instant parse c = Some tc \<longrightarrow> tb \<le> tc)
                                \<longrightarrow> tf \<le> t))))"
proof -
  let ?q = "\<lambda>a. for_patient patient_id a \<and> (\<exists>t. start_instant parse a = Some t \<and> now \<le> t)"
  have nf: "\<forall>a\<in>set appointments. \<not> fatal_current parse patient_id (DT now None) a"
    using wf not_fatal_current by blast
  from get_current_appointment_ok [OF nf]
  obtain res where res: "get_current_appointment parse patient_id appointments now = Inr res"
    and sel: "if \<forall>a\<in>set appointments. \<not> ?q a then res = None
              else \<exists>first. res = Some first \<and> ?q first \<and> first \<in> set appointments
                     \<and> (\<forall>a\<in>set appointments. ?q a \<longrightarrow> start_key first \<le> start_key a)"
    unfolding upcoming_at_iff by blast
  have none: "res = None \<longleftrightarrow> (\<forall>a\<in>set appointments. \<not> ?q a)"
    using sel by (auto split: if_splits)
  have some: "first \<in> set appointments \<and> for_patient patient_id first
             \<and> (\<exists>tf. start_instant parse first = Some tf \<and> now \<le> tf
                  \<and> (\<forall>a\<in>set appointments. \<forall>t.
                        for_patient patient_id a \<and> start_instant parse a = Some t \<and> now \<le> t
                        \<longrightarrow> start_key first \<le> start_key a
                            \<and> ((\<forall>b\<in>set appointments. \<forall>c\<in>set appointments. \<forall>tb tc.
                                   start_key b \<le> start_key c \<and> start_instant parse b = Some tb
                                   \<and> start_instant parse c = Some tc \<longrightarrow> tb \<le> tc)
                                \<longrightarrow> tf \<le> t)))"
    if f: "res = Some first" for first
  proof -
    from sel f have q: "?q first" and mem: "first \<in> set appointments"
      and le: "\<forall>a\<in>set appointments. ?q a \<longrightarrow> start_key first \<le> start_key a"
      by (auto split: if_splits)
    from q obtain tf where tf: "start_instant parse first = Some tf" "now \<le> tf"
      by blast
    have "start_key first \<le> start_key a
            \<and> ((\<forall>b\<in>set appointments. \<forall>c\<in>set appointments. \<forall>tb tc.
                   start_key b \<le> start_key c \<and> start_instant parse b = Some tb
                   \<and> start_instant parse c = Some tc \<longrightarrow> tb \<le> tc)
                \<longrightarrow> tf \<le> t)"
      if a: "a \<in> set appointments" "for_patient patient_id a"
        "start_instant parse a = Some t" "now \<le> t" for a t
    proof -
      have k: "start_key first \<le> start_key a"
        using le a by blast
      then show ?thesis
        using mem a(1,3) tf(1) by blast
    qed
    with q mem tf show ?thesis by blast
  qed
  show ?thesis
    using res none some by blast
qed

text \<open>
  C8. The per-patient query keeps the records that are booked with the given patient_id and
  whose start is at or after the raw current instant, and returns the one with the earliest
  start, or an empty result when none qualifies. The code sorts the kept records by the
  \<^verbatim>\<open>start\<close> string under the comment \<^verbatim>\<open># Return the earliest upcoming appointment\<close>;
  \<^verbatim>\<open>fromisoformat\<close> accepts any character between date and time, and a space sorts before
  \<^verbatim>\<open>T\<close>, so of the patient's upcoming records at 10:00 and at 11:00 the later one is
  returned. The records of another patient and the slot that is not booked are passed over,
  as is the record that started before the raw instant.
\<close>

theorem current_appointment_returns_later_start:
  "get_current_appointment fromisoformat_ext 7
     [appointment 40 ''booked'' (JInt 8) ''2025-12-12 09:45:00'' (JInt 30),
      appointment 43 ''available'' (JInt 7) ''2025-12-12 09:50:00'' (JInt 30),
      appointment 44 ''booked'' (JInt 7) ''2025-12-12 09:00:00'' (JInt 30),
      appointment 41 ''booked'' (JInt 7) ''2025-12-12T10:00:00'' (JInt 30),
      appointment 42 ''booked'' (JInt 7) ''2025-12-12 11:00:00'' (JInt 30)]
     (on_2025_12_12 9 30 0)
    = Inr (Some (appointment 42 ''booked'' (JInt 7) ''2025-12-12 11:00:00'' (JInt 30)))
   \<and> for_patient 7 (appointment 41 ''booked'' (JInt 7) ''2025-12-12T10:00:00'' (JInt 30))
   \<and> start_instant fromisoformat_ext
        (appointment 41 ''booked'' (JInt 7) ''2025-12-12T10:00:00'' (JInt 30))
       = Some (on_2025_12_12 10 0 0)
   \<and> start_instant fromisoformat_ext
        (appointment 42 ''booked'' (JInt 7) ''2025-12-12 11:00:00'' (JInt 30))
       = Some (on_2025_12_12 11 0 0)
   \<and> on_2025_12_12 9 30 0 \<le> on_2025_12_12 10 0 0
   \<and> on_2025_12_12 10 0 0 < on_2025_12_12 11 0 0
   \<and> start_key (appointment 42 ''booked'' (JInt 7) ''2025-12-12 11:00:00'' (JInt 30))
       < start_key (appointment 41 ''booked'' (JInt 7) ''2025-12-12T10:00:00'' (JInt 30))"
  by code_simp

text \<open>
  C9. In the per-patient query, a record of the patient whose start fails to parse is logged
  and skipped, so that the call still succeeds and can return another record. The loop of
  \<^verbatim>\<open>get_current_appointment\<close> has no \<^verbatim>\<open>try\<close>: the ValueError of
  \<^verbatim>\<open>fromisoformat\<close> leaves the handler and the call fails, also when another record of
  the patient is upcoming. The resolver, on the same list, skips the record.
\<close>

theorem current_appointment_fails_on_malformed_start:
  "get_current_appointment fromisoformat_ext 7
     [appointment 20 ''booked'' (JInt 7) ''12/12/2025 9am'' (JInt 30),
      appointment 21 ''booked'' (JInt 7) ''2025-12-12T10:00:00'' (JInt 30)]
     (on_2025_12_12 9 30 0) = Inl ValueError
   \<and> get_current_appointment fromisoformat_ext 7
        [appointment 21 ''booked'' (JInt 7) ''2025-12-12T10:00:00'' (JInt 30)]
        (on_2025_12_12 9 30 0)
       = Inr (Some (appointment 21 ''booked'' (JInt 7) ''2025-12-12T10:00:00'' (JInt 30)))
   \<and> get_active_appointment fromisoformat_ext
        [appointment 20 ''booked'' (JInt 7) ''12/12/2025 9am'' (JInt 30),
         appointment 21 ''booked'' (JInt 7) ''2025-12-12T10:00:00'' (JInt 30)]
        (on_2025_12_12 15 10 0)
       = Inr (appointment 21 ''booked'' (JInt 7) ''2025-12-12T10:00:00'' (JInt 30))"
  by code_simp

text \<open>
  C10. The per-patient query never returns an appointment that is already in progress: a
  record whose start is strictly before the current instant is excluded, also when the
  instant lies inside its window; what is returned has \<open>start \<ge> now\<close>.
\<close>

theorem current_appointment_starts_at_or_after_now:
  assumes "get_current_appointment parse patient_id appointments now = Inr (Some first)"
  shows "(\<exists>t. start_instant parse first = Some t \<and> now \<le> t)
       \<and> (\<forall>a t. start_instant parse a = Some t \<and> t < now \<longrightarrow> a \<noteq> first)"
proof -
  have nf: "\<forall>a\<in>set appointments. \<not> fatal_current parse patient_id (DT now None) a"
    using assms get_current_appointment_fatal [of appointments parse patient_id now] by auto
  from get_current_appointment_ok [OF nf] assms
  have "upcoming_at parse patient_id (DT now None) first"
    by (auto split: if_splits)
  then obtain t where t: "start_instant parse first = Some t" "now \<le> t"
    unfolding upcoming_at_iff by blast
  then show ?thesis by auto
qed

theorem current_appointment_starts_at_or_after_now_witness:
  "get_current_appointment fromisoformat_ext 7
     [appointment 30 ''booked'' (JInt 7) ''2025-12-12T09:00:00'' (JInt 30),
      appointment 31 ''booked'' (JInt 7) ''2025-12-12T10:00:00'' (JInt 30)]
     (on_2025_12_12 9 10 0)
    = Inr (Some (appointment 31 ''booked'' (JInt 7) ''2025-12-12T10:00:00'' (JInt 30)))
   \<and> start_instant fromisoformat_ext
        (appointment 30 ''booked'' (JInt 7) ''2025-12-12T09:00:00'' (JInt 30))
       = Some (on_2025_12_12 9 0 0)
   \<and> on_2025_12_12 9 0 0 < on_2025_12_12 9 10 0
   \<and> on_2025_12_12 9 10 0 < on_2025_12_12 9 0 0 + 30 * 60000000
   \<and> appointment 30 ''booked'' (JInt 7) ''2025-12-12T09:00:00'' (JInt 30)
       \<noteq> appointment 31 ''booked'' (JInt 7) ''2025-12-12T10:00:00'' (JInt 30)
   \<and> (\<exists>t. start_instant fromisoformat_ext
              (appointment 31 ''booked'' (JInt 7) ''2025-12-12T10:00:00'' (JInt 30)) = Some t
          \<and> on_2025_12_12 9 10 0 \<le> t)"
proof -
  let ?running = "appointment 30 ''booked'' (JInt 7) ''2025-12-12T09:00:00'' (JInt 30)"
  let ?next = "appointment 31 ''booked'' (JInt 7) ''2025-12-12T10:00:00'' (JInt 30)"
  have get: "get_current_appointment fromisoformat_ext 7 [?running, ?next] (on_2025_12_12 9 10 0)
               = Inr (Some ?next)"
    by code_simp
  have i: "start_instant fromisoformat_ext ?running = Some (on_2025_12_12 9 0 0)" by code_simp
  have before: "on_2025_12_12 9 0 0 < on_2025_12_12 9 10 0" by code_simp
  have inside: "on_2025_12_12 9 10 0 < on_2025_12_12 9 0 0 + 30 * 60000000" by code_simp
  from current_appointment_starts_at_or_after_now [OF get] i before
  have "?running \<noteq> ?next"
    and "\<exists>t. start_instant fromisoformat_ext ?next = Some t \<and> on_2025_12_12 9 10 0 \<le> t"
    by blast+
  with get i before inside show ?thesis by blast
qed

end
